theory Spec2Isabelle
  imports Complex_Main "HOL-Library.Char_ord" "HOL-Library.List_Lexorder" "HOL-Library.Multiset"
begin

unbundle bit_operations_syntax

chapter \<open>The model\<close>

section \<open>Strings: Python's \<open>strip\<close> and \<open>title\<close> on ASCII text\<close>

text \<open>
  Symptom names are Python \<open>str\<close> values. They are modelled as \<open>string\<close> (lists of
  8-bit characters) and the model covers ASCII text: a character above 127 is neither
  whitespace nor cased here, whereas Python decides both from the Unicode tables.
  Python compares strings by code point, position by position, a proper prefix being
  smaller; this is the lexicographic order on \<open>char list\<close>.
\<close>

definition is_space :: "char \<Rightarrow> bool" where
  \<comment> \<open>\<open>str.isspace\<close> on ASCII: TAB, LF, VT, FF, CR, FS, GS, RS, US and the blank.\<close>
  "is_space c = (of_char c \<in> {9, 10, 11, 12, 13, 28, 29, 30, 31, 32 :: nat})"

definition is_lower :: "char \<Rightarrow> bool" where
  "is_lower c = (97 \<le> (of_char c :: nat) \<and> (of_char c :: nat) \<le> 122)"

definition is_upper :: "char \<Rightarrow> bool" where
  "is_upper c = (65 \<le> (of_char c :: nat) \<and> (of_char c :: nat) \<le> 90)"

definition is_cased :: "char \<Rightarrow> bool" where
  "is_cased c = (is_lower c \<or> is_upper c)"

definition to_upper :: "char \<Rightarrow> char" where
  "to_upper c = (if is_lower c then char_of (of_char c - (32 :: nat)) else c)"

definition to_lower :: "char \<Rightarrow> char" where
  "to_lower c = (if is_upper c then char_of (of_char c + (32 :: nat)) else c)"

definition py_strip :: "string \<Rightarrow> string" where
  \<comment> \<open>\<open>s.strip()\<close>: leading and trailing whitespace removed.\<close>
  "py_strip s = rev (dropWhile is_space (rev (dropWhile is_space s)))"

fun title_from :: "bool \<Rightarrow> string \<Rightarrow> string" where
  \<comment> \<open>The loop of \<open>str.title\<close>: the flag says whether the previous character is cased.\<close>
  "title_from prev [] = []"
| "title_from prev (c # cs) =
     (if prev then to_lower c else to_upper c) # title_from (is_cased c) cs"

definition py_title :: "string \<Rightarrow> string" where
  "py_title s = title_from False s"

definition py_lower :: "string \<Rightarrow> string" where
  "py_lower s = map to_lower s"

definition py_upper :: "string \<Rightarrow> string" where
  "py_upper s = map to_upper s"

definition normalise :: "string list \<Rightarrow> string list" where
  \<comment> \<open>\<open>[s.strip().title() for s in symptoms if s.strip()]\<close>\<close>
  "normalise symptoms = map (\<lambda>s. py_title (py_strip s)) (filter (\<lambda>s. py_strip s \<noteq> []) symptoms)"

definition normalise_set :: "string list \<Rightarrow> string list" where
  \<comment> \<open>\<open>list({s.strip().title() for s in symptoms if s.strip()})\<close>: the set comprehension
      as a duplicate-free list (Python fixes no order for it).\<close>
  "normalise_set symptoms = remdups (normalise symptoms)"

fun join :: "string \<Rightarrow> string list \<Rightarrow> string" where
  \<comment> \<open>\<open>sep.join(xs)\<close>\<close>
  "join sep [] = []"
| "join sep [x] = x"
| "join sep (x # y # ys) = x @ sep @ join sep (y # ys)"

section \<open>The special-case key\<close>

definition sym_key :: "string list \<Rightarrow> string" where
  \<comment> \<open>\<open>_sym_key\<close>: \<open>"|".join(sorted({s.strip().title() for s in symptoms if s.strip()}))\<close>\<close>
  "sym_key symptoms = join ''|'' (sort (normalise_set symptoms))"

definition trimmed :: "string \<Rightarrow> bool" where
  \<comment> \<open>No whitespace at either end: what \<open>strip\<close> returns.\<close>
  "trimmed s = (s = [] \<or> (\<not> is_space (hd s) \<and> \<not> is_space (last s)))"


section \<open>Python values: exceptions, dictionaries, rounding\<close>

datatype error =
    StoreError        \<comment> \<open>any exception of the Neo4j driver (\<open>session.run\<close> raised)\<close>
  | RecursionError    \<comment> \<open>Python's recursion limit was reached\<close>
  | AttributeError
  | InferenceError    \<comment> \<open>an exception raised inside pgmpy\<close>

text \<open>
  A Python \<open>dict\<close> is an association list in insertion order with distinct keys;
  \<open>dict_set\<close> is \<open>d[k] = v\<close>. Floats are modelled as real numbers.
\<close>

fun dict_set :: "('k \<times> 'v) list \<Rightarrow> 'k \<Rightarrow> 'v \<Rightarrow> ('k \<times> 'v) list" where
  "dict_set [] k v = [(k, v)]"
| "dict_set ((k', v') # r) k v = (if k' = k then (k, v) # r else (k', v') # dict_set r k v)"


definition round_half_even :: "real \<Rightarrow> int" where
  "round_half_even x =
     (let f = \<lfloor>x\<rfloor>; r = x - of_int f
      in if r < 1 / 2 then f else if 1 / 2 < r then f + 1 else if even f then f else f + 1)"

definition py_round4 :: "real \<Rightarrow> real" where
  \<comment> \<open>\<open>round(x, 4)\<close>\<close>
  "py_round4 x = of_int (round_half_even (x * 10000)) / 10000"

fun split_on :: "char \<Rightarrow> string \<Rightarrow> string list" where
  \<comment> \<open>\<open>s.split(c)\<close>\<close>
  "split_on c [] = [[]]"
| "split_on c (x # xs) =
     (if x = c then [] # split_on c xs
      else (case split_on c xs of [] \<Rightarrow> [[x]] | w # ws \<Rightarrow> (x # w) # ws))"

fun max_by_first :: "('k \<times> real) list \<Rightarrow> ('k \<times> real) \<Rightarrow> ('k \<times> real)" where
  \<comment> \<open>\<open>max(d, key=d.get)\<close> keeps the first of several maximal entries.\<close>
  "max_by_first [] best = best"
| "max_by_first (kv # r) best = max_by_first r (if snd best < snd kv then kv else best)"

section \<open>The graph store\<close>

text \<open>
  The Neo4j database is a record of the node and relationship sets the queries touch.
  Nodes that the code only ever creates with \<open>MERGE\<close> on a name are identified by
  that name. \<open>calls\<close> counts the calls of \<open>session.run\<close>, so that an environment can
  say which of them raise. The record also carries the one global variable of the Python
  process, the cached network.
\<close>

datatype detail = Str string | Strs "string list" | Num real | IntOpt "int option" | Err error

type_synonym details = "(string \<times> detail) list"

record audit_node =
  action :: string
  detail_map :: details

record case_bundle =
  sc_symptoms :: "string list"
  sc_first_seen :: int
  sc_last_seen :: "int option"
  sc_hits :: int
  sc_patients :: "string list option"  \<comment> \<open>\<open>None\<close>: the property is absent (null)\<close>

record cpd =
  variable :: string
  evidence :: "string list"
  row_false :: "real list"
  row_true :: "real list"

record bn_model =
  bn_edges :: "(string \<times> string) list"
  bn_cpds :: "cpd list"

record store =
  symptom_nodes :: "string list"                    \<comment> \<open>names of the \<open>Symptom\<close> nodes\<close>
  disease_nodes :: "string list"                    \<comment> \<open>names of the \<open>Disease\<close> nodes\<close>
  person_nodes :: "string list"                     \<comment> \<open>names of the \<open>Person\<close> nodes\<close>
  has_symptom :: "(string \<times> string) list"         \<comment> \<open>\<open>(disease)-[:HAS_SYMPTOM]->(symptom)\<close>\<close>
  special_cases :: "(string \<times> case_bundle) list"        \<comment> \<open>\<open>SpecialCase\<close> nodes by \<open>sym_key\<close>\<close>
  case_links :: "(string \<times> string) list"          \<comment> \<open>\<open>(case)-[:HAS_SYMPTOM]->(symptom)\<close>\<close>
  audit :: "audit_node list"                        \<comment> \<open>\<open>Audit\<close> nodes, oldest first\<close>
  audit_errors :: "audit_node list"                 \<comment> \<open>\<open>AuditError\<close> nodes\<close>
  diagnosed :: "((string \<times> string) \<times> real) list"  \<comment> \<open>\<open>DIAGNOSED_WITH\<close> and its confidence\<close>
  calls :: nat
  cached_model :: "bn_model option"               \<comment> \<open>the module global \<open>_cached_model\<close>\<close>

record env =
  store_fails :: "nat \<Rightarrow> bool"       \<comment> \<open>does the n-th call of \<open>session.run\<close> raise?\<close>
  stack_limit :: nat                   \<comment> \<open>frames left before \<open>RecursionError\<close>\<close>
  clock_ms :: "nat \<Rightarrow> int"           \<comment> \<open>\<open>int(time.time() * 1000)\<close>, read before the n-th call\<close>
  MIN_PROB :: real
  UNUSUAL_THRESH :: real
  load_probs :: "string \<rightharpoonup> (string \<rightharpoonup> real)"   \<comment> \<open>what \<open>_load_probs()\<close> returns\<close>
  infer_query :: "bn_model \<Rightarrow> string list \<Rightarrow> string \<Rightarrow> error + real"
    \<comment> \<open>pgmpy: \<open>VariableElimination(model).query([d], evidence)[d].values[1]\<close>\<close>
  get_cpds :: "bn_model \<Rightarrow> string \<Rightarrow> error + unit"
    \<comment> \<open>pgmpy: \<open>model.get_cpds(node)\<close>, which may raise\<close>

definition tick :: "store \<Rightarrow> store" where
  "tick st = st\<lparr>calls := Suc (calls st)\<rparr>"

definition bind_st ::
  "('s \<Rightarrow> (error + 'a) \<times> 's) \<Rightarrow> ('a \<Rightarrow> 's \<Rightarrow> (error + 'b) \<times> 's) \<Rightarrow> 's \<Rightarrow> (error + 'b) \<times> 's" where
  \<comment> \<open>Sequencing: an exception of the first statement leaves the function.\<close>
  "bind_st m f st = (case m st of (Inl x, st') \<Rightarrow> (Inl x, st') | (Inr a, st') \<Rightarrow> f a st')"

subsection \<open>\<open>_run\<close> and \<open>log_audit\<close>\<close>

datatype write_query =
    CreateAudit string details          \<comment> \<open>\<open>CREATE (:Audit {action, details, ts})\<close>\<close>
  | CreateAuditError details error      \<comment> \<open>\<open>CREATE (:AuditError {...})\<close>\<close>
  | SetDiagnosis string string real     \<comment> \<open>the query of \<open>create_diagnosis\<close>\<close>

fun query_text :: "write_query \<Rightarrow> string" where
  "query_text (CreateAudit a d) = ''CREATE (:Audit)''"
| "query_text (CreateAuditError d x) = ''CREATE (:AuditError)''"
| "query_text (SetDiagnosis p d c) = ''MERGE (p)-[r:DIAGNOSED_WITH]->(d)''"

fun apply_write :: "write_query \<Rightarrow> store \<Rightarrow> store" where
  "apply_write (CreateAudit a d) st = st\<lparr>audit := audit st @ [\<lparr>action = a, detail_map = d\<rparr>]\<rparr>"
| "apply_write (CreateAuditError d x) st =
     st\<lparr>audit_errors := audit_errors st @
        [\<lparr>action = ''AUDIT_LOGGING_FAILED'', detail_map = d @ [(''error'', Err x)]\<rparr>]\<rparr>"
| "apply_write (SetDiagnosis p d c) st =
     (if p \<in> set (person_nodes st) \<and> d \<in> set (disease_nodes st)
      then st\<lparr>diagnosed := dict_set (diagnosed st) (p, d) c\<rparr> else st)"

text \<open>
  \<open>_run\<close> catches every exception of \<open>session.run\<close> and reports it with \<open>log_audit\<close>;
  \<open>log_audit\<close> writes with \<open>_run\<close>, and again with \<open>_run\<close> if that raised. The two call
  each other, so the depth of the Python stack is part of the model: a call with no frame
  left raises \<open>RecursionError\<close>. An exception raised inside an \<open>except\<close> block leaves
  the function.
\<close>

fun run :: "env \<Rightarrow> nat \<Rightarrow> write_query \<Rightarrow> store \<Rightarrow> (error + unit) \<times> store"
  and log_audit :: "env \<Rightarrow> nat \<Rightarrow> string \<Rightarrow> details \<Rightarrow> store \<Rightarrow> (error + unit) \<times> store" where
  "run e 0 q st = (Inl RecursionError, st)"
| "run e (Suc d) q st =
     (if store_fails e (calls st)
      then log_audit e d ''QUERY_ERROR'' [(''error'', Err StoreError), (''query'', Str (query_text q))] (tick st)
      else (Inr (), apply_write q (tick st)))"
| "log_audit e 0 a dt st = (Inl RecursionError, st)"
| "log_audit e (Suc d) a dt st =
     (case run e d (CreateAudit a dt) st of
        (Inr u, st') \<Rightarrow> (Inr (), st')
      | (Inl x, st') \<Rightarrow> run e d (CreateAuditError dt x) st')"

definition on_error :: "env \<Rightarrow> string \<Rightarrow> details \<Rightarrow> 'a \<Rightarrow> store \<Rightarrow> (error + 'a) \<times> store" where
  \<comment> \<open>\<open>except Exception as e: log_audit(name, details); return dflt\<close>\<close>
  "on_error e name dt dflt st =
     (case log_audit e (stack_limit e) name dt st of
        (Inl x, st') \<Rightarrow> (Inl x, st')
      | (Inr u, st') \<Rightarrow> (Inr dflt, st'))"

definition create_diagnosis :: "env \<Rightarrow> string \<Rightarrow> string \<Rightarrow> real \<Rightarrow> store \<Rightarrow> (error + unit) \<times> store" where
  "create_diagnosis e person disease confidence st =
     (case bind_st (run e (stack_limit e) (SetDiagnosis person disease confidence))
             (\<lambda>u. log_audit e (stack_limit e) ''CREATE_DIAGNOSIS''
                [(''person'', Str person), (''disease'', Str disease), (''confidence'', Num confidence)]) st of
        (Inr u, st') \<Rightarrow> (Inr (), st')
      | (Inl x, st') \<Rightarrow>
          log_audit e (stack_limit e) ''CREATE_DIAGNOSIS_ERROR''
            [(''person'', Str person), (''disease'', Str disease), (''error'', Err x)] st')"


definition return_st :: "'a \<Rightarrow> 's \<Rightarrow> (error + 'a) \<times> 's" where
  "return_st x st = (Inr x, st)"


subsection \<open>Matching diseases against symptoms\<close>

definition found :: "(string \<times> string) list \<Rightarrow> string list \<Rightarrow> string \<Rightarrow> string list" where
  \<comment> \<open>\<open>collect(DISTINCT s.name)\<close> for one disease, after \<open>WHERE s.name IN $symptoms\<close>\<close>
  "found edges sympts d = remdups (map snd (filter (\<lambda>(d', s). d' = d \<and> s \<in> set sympts) edges))"

definition match_query :: "(string \<times> string) list \<Rightarrow> string list \<Rightarrow> int \<Rightarrow> string list" where
  \<comment> \<open>The Cypher query of \<open>diseases_by_symptoms\<close>: the diseases with a matching edge,
      kept when \<open>size(found) >= $needed\<close>.\<close>
  "match_query edges sympts needed =
     filter (\<lambda>d. needed \<le> int (length (found edges sympts d)))
       (remdups (map fst (filter (\<lambda>(d, s). s \<in> set sympts) edges)))"

definition diseases_by_symptoms ::
  "env \<Rightarrow> string list \<Rightarrow> int option \<Rightarrow> store \<Rightarrow> (error + string list) \<times> store" where
  "diseases_by_symptoms e symptoms min_matches st =
     (let sympts = normalise symptoms in
      if sympts = [] then (Inr [], st)
      else
        let needed = (case min_matches of None \<Rightarrow> int (length sympts) | Some m \<Rightarrow> max 1 m) in
        if store_fails e (calls st)
        then on_error e ''QUERY_DISEASES_BY_SYMPTOMS_ERROR''
               [(''symptoms'', Strs symptoms), (''min_matches'', IntOpt min_matches),
                (''error'', Err StoreError)] [] (tick st)
        else (Inr (match_query (has_symptom st) sympts needed), tick st))"

definition symptoms_of :: "store \<Rightarrow> string \<Rightarrow> string set" where
  \<comment> \<open>The recorded symptom set of a disease: its outgoing \<open>HAS_SYMPTOM\<close> edges.\<close>
  "symptoms_of st d = {s. (d, s) \<in> set (has_symptom st)}"

subsection \<open>Special cases\<close>

fun merge_all :: "'a list \<Rightarrow> 'a list \<Rightarrow> 'a list" where
  \<comment> \<open>\<open>MERGE\<close> of each element of the second list into the first.\<close>
  "merge_all xs [] = xs"
| "merge_all xs (y # ys) = merge_all (if y \<in> set xs then xs else xs @ [y]) ys"

definition upsert_query :: "string \<Rightarrow> string list \<Rightarrow> int \<Rightarrow> store \<Rightarrow> store" where
  \<comment> \<open>The query of \<open>upsert_special_case\<close>: links go to existing \<open>Symptom\<close> nodes only
      (\<open>MATCH (s:Symptom {name:name})\<close>).\<close>
  "upsert_query key sympts ts st =
     st\<lparr>special_cases :=
          (case map_of (special_cases st) key of
             None \<Rightarrow> special_cases st @
               [(key, \<lparr>sc_symptoms = sympts, sc_first_seen = ts, sc_last_seen = None,
                       sc_hits = 1, sc_patients = None\<rparr>)]
           | Some c \<Rightarrow> dict_set (special_cases st) key
               (c\<lparr>sc_hits := sc_hits c + 1, sc_last_seen := Some ts\<rparr>)),
        case_links := merge_all (case_links st)
          (map (Pair key) (filter (\<lambda>n. n \<in> set (symptom_nodes st)) sympts))\<rparr>"

definition upsert_patient_query :: "string \<Rightarrow> string list \<Rightarrow> int \<Rightarrow> string \<Rightarrow> store \<Rightarrow> store" where
  \<comment> \<open>The query of \<open>upsert_special_case_with_patient\<close>. In Cypher \<open>x IN null\<close> is null
      and \<open>null + [x]\<close> is null, so an absent \<open>patients\<close> property stays absent.\<close>
  "upsert_patient_query key sympts ts patient st =
     st\<lparr>special_cases :=
          (case map_of (special_cases st) key of
             None \<Rightarrow> special_cases st @
               [(key, \<lparr>sc_symptoms = sympts, sc_first_seen = ts, sc_last_seen = None,
                       sc_hits = 1, sc_patients = Some [patient]\<rparr>)]
           | Some c \<Rightarrow> dict_set (special_cases st) key
               (c\<lparr>sc_hits := sc_hits c + 1, sc_last_seen := Some ts,
                  sc_patients :=
                    (case sc_patients c of
                       None \<Rightarrow> None
                     | Some ps \<Rightarrow> if patient \<in> set ps then Some ps else Some (ps @ [patient]))\<rparr>)),
        symptom_nodes := merge_all (symptom_nodes st) sympts,
        case_links := merge_all (case_links st) (map (Pair key) sympts)\<rparr>"

definition upsert_special_case ::
  "env \<Rightarrow> string list \<Rightarrow> store \<Rightarrow> (error + case_bundle option) \<times> store" where
  "upsert_special_case e symptoms st =
     (let key = sym_key symptoms; sympts = normalise_set symptoms; ts = clock_ms e (calls st) in
      if store_fails e (calls st)
      then on_error e ''UPSERT_SPECIAL_CASE_ERROR''
             [(''key'', Str key), (''symptoms'', Strs sympts), (''error'', Err StoreError)] None (tick st)
      else
        let st1 = upsert_query key sympts ts (tick st);
            rec = (if filter (\<lambda>n. n \<in> set (symptom_nodes st)) sympts = [] then None
                   else map_of (special_cases st1) key)
        in (case log_audit e (stack_limit e) ''UPSERT_SPECIAL_CASE''
                   [(''key'', Str key), (''symptoms'', Strs sympts)] st1 of
              (Inr u, st2) \<Rightarrow> (Inr rec, st2)
            | (Inl x, st2) \<Rightarrow> on_error e ''UPSERT_SPECIAL_CASE_ERROR''
                [(''key'', Str key), (''symptoms'', Strs sympts), (''error'', Err x)] None st2))"

definition upsert_special_case_with_patient ::
  "env \<Rightarrow> string list \<Rightarrow> string \<Rightarrow> store \<Rightarrow> (error + case_bundle option) \<times> store" where
  "upsert_special_case_with_patient e symptoms patient_name st =
     (let key = sym_key symptoms; sympts = normalise_set symptoms; ts = clock_ms e (calls st) in
      if store_fails e (calls st)
      then on_error e ''UPSERT_SPECIAL_CASE_WITH_PATIENT_ERROR''
             [(''key'', Str key), (''symptoms'', Strs sympts), (''patient'', Str patient_name),
              (''error'', Err StoreError)] None (tick st)
      else
        let st1 = upsert_patient_query key sympts ts patient_name (tick st);
            rec = (if sympts = [] then None else map_of (special_cases st1) key)
        in (case log_audit e (stack_limit e) ''UPSERT_SPECIAL_CASE_WITH_PATIENT''
                   [(''key'', Str key), (''symptoms'', Strs sympts), (''patient'', Str patient_name)] st1 of
              (Inr u, st2) \<Rightarrow> (Inr rec, st2)
            | (Inl x, st2) \<Rightarrow> on_error e ''UPSERT_SPECIAL_CASE_WITH_PATIENT_ERROR''
                [(''key'', Str key), (''symptoms'', Strs sympts), (''patient'', Str patient_name),
                 (''error'', Err x)] None st2))"

definition find_special_case ::
  "env \<Rightarrow> string list \<Rightarrow> store \<Rightarrow> (error + case_bundle option) \<times> store" where
  "find_special_case e symptoms st =
     (let key = sym_key symptoms in
      if store_fails e (calls st)
      then on_error e ''FIND_SPECIAL_CASE_ERROR'' [(''key'', Str key), (''error'', Err StoreError)]
             None (tick st)
      else (Inr (map_of (special_cases st) key), tick st))"









section \<open>The Bayesian network\<close>

text \<open>
  \<open>build_model\<close> hands the tables below to pgmpy; pgmpy's own validation
  (\<open>TabularCPD\<close>, \<open>check_model\<close>) is not part of the model.
\<close>

definition graph_rows :: "(string \<times> string) list \<Rightarrow> (string \<times> string list) list" where
  \<comment> \<open>\<open>RETURN d.name AS dis, collect(s.name) AS syms\<close>: one row per disease with an edge.\<close>
  "graph_rows edges =
     map (\<lambda>d. (d, map snd (filter (\<lambda>(d', s). d' = d) edges))) (remdups (map fst edges))"

definition fetch_graph :: "env \<Rightarrow> store \<Rightarrow> (error + (string \<times> string list) list) \<times> store" where
  \<comment> \<open>\<open>_fetch_graph\<close> has no \<open>try\<close>: an exception of the store leaves it.\<close>
  "fetch_graph e st =
     (if store_fails e (calls st) then (Inl StoreError, tick st)
      else (Inr (graph_rows (has_symptom st)), tick st))"

definition bits :: "nat \<Rightarrow> nat \<Rightarrow> nat list" where
  \<comment> \<open>\<open>[(i >> j) & 1 for j in reversed(range(k))]\<close>\<close>
  "bits k i = map (\<lambda>j. (drop_bit j i) AND 1) (rev [0..<k])"

fun raise_p :: "(string \<Rightarrow> real) \<Rightarrow> (nat \<times> string) list \<Rightarrow> real \<Rightarrow> real" where
  \<comment> \<open>\<open>for b, sym in zip(bits, syms): if b == 1: p_true = max(p_true, lookup(sym))\<close>\<close>
  "raise_p lookup [] p = p"
| "raise_p lookup ((b, s) # r) p = raise_p lookup r (if b = 1 then max p (lookup s) else p)"

definition overrides :: "env \<Rightarrow> string \<Rightarrow> (string \<rightharpoonup> real)" where
  \<comment> \<open>\<open>probs.get(dis, {})\<close>\<close>
  "overrides e dis = (case load_probs e dis of None \<Rightarrow> Map.empty | Some m \<Rightarrow> m)"

definition base_prob :: "env \<Rightarrow> string \<Rightarrow> real" where
  \<comment> \<open>\<open>probs.get(dis, {}).get("base_prob", MIN_PROB)\<close>\<close>
  "base_prob e dis = (case overrides e dis ''base_prob'' of None \<Rightarrow> MIN_PROB e | Some v \<Rightarrow> v)"

definition sym_prob :: "env \<Rightarrow> string \<Rightarrow> string \<Rightarrow> real" where
  \<comment> \<open>\<open>probs.get(dis, {}).get(sym, 0.8)\<close>\<close>
  "sym_prob e dis s = (case overrides e dis s of None \<Rightarrow> 8 / 10 | Some v \<Rightarrow> v)"

definition p_true_row :: "env \<Rightarrow> string \<Rightarrow> string list \<Rightarrow> nat \<Rightarrow> real" where
  \<comment> \<open>\<open>p_true\<close> of row \<open>i\<close>: the body of \<open>for i in range(2 ** len(syms))\<close>\<close>
  "p_true_row e dis syms i =
     raise_p (sym_prob e dis) (zip (bits (length syms) i) syms) (base_prob e dis)"

definition disease_cpd :: "env \<Rightarrow> string \<times> string list \<Rightarrow> cpd" where
  "disease_cpd e ds =
     (case ds of (dis, syms) \<Rightarrow>
        \<lparr>variable = dis, evidence = syms,
         row_false = map (\<lambda>i. 1 - p_true_row e dis syms i) [0..<2 ^ length syms],
         row_true = map (\<lambda>i. p_true_row e dis syms i) [0..<2 ^ length syms]\<rparr>)"

definition symptom_cpd :: "string \<Rightarrow> cpd" where
  "symptom_cpd s = \<lparr>variable = s, evidence = [], row_false = [1 / 2], row_true = [1 / 2]\<rparr>"

definition compile_model :: "env \<Rightarrow> (string \<times> string list) list \<Rightarrow> bn_model" where
  \<comment> \<open>The body of \<open>build_model\<close> between fetching the graph and caching the result.\<close>
  "compile_model e mapping =
     \<lparr>bn_edges = concat (map (\<lambda>(dis, syms). map (\<lambda>s. (s, dis)) syms) mapping),
      bn_cpds = map symptom_cpd (remdups (concat (map snd mapping))) @ map (disease_cpd e) mapping\<rparr>"

definition build_model :: "env \<Rightarrow> store \<Rightarrow> (error + bn_model) \<times> store" where
  "build_model e st =
     (case cached_model st of
        Some m \<Rightarrow> (Inr m, st)
      | None \<Rightarrow>
          bind_st (fetch_graph e)
            (\<lambda>mapping st'. let m = compile_model e mapping in (Inr m, st'\<lparr>cached_model := Some m\<rparr>)) st)"

definition invalidate_cache :: "store \<Rightarrow> store" where
  "invalidate_cache st = st\<lparr>cached_model := None\<rparr>"

section \<open>Diagnosis\<close>

definition is_unusual :: "env \<Rightarrow> (string \<times> real) list \<Rightarrow> bool" where
  \<comment> \<open>\<open>all(p < UNUSUAL_THRESH for p in prob_dict.values())\<close>\<close>
  "is_unusual e prob_dict = list_all (\<lambda>p. p < UNUSUAL_THRESH e) (map snd prob_dict)"

fun infer_loop ::
  "(string \<Rightarrow> error + real) \<Rightarrow> string list \<Rightarrow> (string \<times> real) list \<Rightarrow> error + (string \<times> real) list" where
  \<comment> \<open>\<open>for disease in diseases: result[disease] = round(float(query(disease)), 4)\<close>;
      there is no \<open>try\<close> around the query.\<close>
  "infer_loop q [] result = Inr result"
| "infer_loop q (disease # rest) result =
     (case q disease of
        Inl x \<Rightarrow> Inl x
      | Inr prob \<Rightarrow> infer_loop q rest (dict_set result disease (py_round4 prob)))"

fun first_error :: "('a \<Rightarrow> error + unit) \<Rightarrow> 'a list \<Rightarrow> error + unit" where
  "first_error f [] = Inr ()"
| "first_error f (x # xs) = (case f x of Inl err \<Rightarrow> Inl err | Inr u \<Rightarrow> first_error f xs)"

definition match_mode :: "string \<Rightarrow> int option" where
  \<comment> \<open>\<open>mode = input(...).strip().lower()\<close>: \<open>p\<close> is 2, \<open>w\<close> is 1, anything else all.\<close>
  "match_mode mode =
     (let m = py_lower (py_strip mode) in
      if m = ''p'' then Some 2 else if m = ''w'' then Some 1 else None)"

definition match_with_fallback ::
  "env \<Rightarrow> string list \<Rightarrow> int option \<Rightarrow> store \<Rightarrow> (error + string list) \<times> store" where
  \<comment> \<open>The strict search, and the search for two symptoms if it found nothing.\<close>
  "match_with_fallback e syms min_matches =
     bind_st (diseases_by_symptoms e syms min_matches)
       (\<lambda>diseases.
          if diseases = [] \<and> min_matches = None then diseases_by_symptoms e syms (Some 2)
          else return_st diseases)"

definition record_best :: "env \<Rightarrow> string \<Rightarrow> (string \<times> real) list \<Rightarrow> store \<Rightarrow> (error + unit) \<times> store" where
  \<comment> \<open>\<open>if probs: best = max(probs, key=probs.get); create_diagnosis(person, best, probs[best])\<close>\<close>
  "record_best e person probs =
     (case probs of
        [] \<Rightarrow> return_st ()
      | kv # r \<Rightarrow> (let best = max_by_first r kv in create_diagnosis e person (fst best) (snd best)))"

text \<open>
  \<open>diagnose_patient\<close> of \<open>bayes_utils\<close>. Input and output on the terminal are left out:
  the answers typed by the user are the arguments \<open>person\<close>, \<open>line\<close> and \<open>mode\<close>. The
  module imports \<open>time\<close> from \<open>datetime\<close>, so formatting the date of a recognised bundle
  evaluates \<open>time.localtime\<close> and raises \<open>AttributeError\<close>.
\<close>

definition bayes_diagnose_patient ::
  "env \<Rightarrow> string \<Rightarrow> string \<Rightarrow> string \<Rightarrow> store \<Rightarrow> (error + unit) \<times> store" where
  "bayes_diagnose_patient e person line mode =
     (let syms = normalise (split_on CHR '','' line) in
      bind_st (find_special_case e syms) (\<lambda>sc.
        if sc \<noteq> None then (\<lambda>st. (Inl AttributeError, st))
        else
          bind_st (match_with_fallback e syms (match_mode mode)) (\<lambda>diseases.
          bind_st (build_model e) (\<lambda>model.
          bind_st (\<lambda>st. (infer_loop (infer_query e model syms) diseases [], st)) (\<lambda>result.
          bind_st (\<lambda>st. (first_error (get_cpds e model) (concat (map (\<lambda>dp. syms) result)), st)) (\<lambda>u.
          bind_st
            (if is_unusual e result
             then bind_st (upsert_special_case e syms)
                    (\<lambda>c. log_audit e (stack_limit e) ''UNUSUAL_CASE''
                            [(''person'', Str person), (''symptoms'', Strs syms)])
             else return_st ())
            (\<lambda>u. record_best e person result)))))))"


definition hits_of :: "store \<Rightarrow> string \<Rightarrow> int" where
  \<comment> \<open>How often the bundle with this key was upserted; 0 if there is none.\<close>
  "hits_of st key = (case map_of (special_cases st) key of None \<Rightarrow> 0 | Some c \<Rightarrow> sc_hits c)"

definition count_action :: "string \<Rightarrow> store \<Rightarrow> nat" where
  \<comment> \<open>The number of \<open>Audit\<close> nodes with this action.\<close>
  "count_action a st = length (filter (\<lambda>n. action n = a) (audit st))"

definition store_ok :: "env \<Rightarrow> bool" where
  \<comment> \<open>No call of the store raises, and two frames are free for \<open>log_audit\<close> and \<open>_run\<close>.\<close>
  "store_ok e = ((\<forall>n. \<not> store_fails e n) \<and> 2 \<le> stack_limit e)"

section \<open>Concrete environments and stores\<close>

text \<open>
  The inputs at which the statements below are evaluated: an environment whose store
  fails as a given predicate says (recursion limit 1000, the default settings, no
  override file), and a small knowledge graph.
\<close>

definition example_env :: "(nat \<Rightarrow> bool) \<Rightarrow> env" where
  "example_env f =
     \<lparr>store_fails = f, stack_limit = 1000, clock_ms = (\<lambda>n. 1700000000000 + int n),
      MIN_PROB = 1 / 100, UNUSUAL_THRESH = 15 / 100, load_probs = Map.empty,
      infer_query = (\<lambda>m ev d. if d \<in> set (map variable (bn_cpds m)) then Inr (8 / 10)
                                 else Inl InferenceError),
      get_cpds = (\<lambda>m n. if n \<in> set (map variable (bn_cpds m)) then Inr () else Inl InferenceError)\<rparr>"

definition store_up :: env where
  "store_up = example_env (\<lambda>n. False)"

definition store_down :: env where
  "store_down = example_env (\<lambda>n. True)"

definition empty_store :: store where
  "empty_store =
     \<lparr>symptom_nodes = [], disease_nodes = [], person_nodes = [], has_symptom = [],
      special_cases = [], case_links = [], audit = [], audit_errors = [], diagnosed = [],
      calls = 0, cached_model = None\<rparr>"

definition flu_store :: store where
  \<comment> \<open>Flu has Fever and Cough; Covid has Fever, Cough and Loss Of Smell.\<close>
  "flu_store =
     empty_store
       \<lparr>symptom_nodes := [''Fever'', ''Cough'', ''Loss Of Smell''],
        disease_nodes := [''Flu'', ''Covid''],
        person_nodes := [''Ann''],
        has_symptom := [(''Flu'', ''Fever''), (''Flu'', ''Cough''), (''Covid'', ''Fever''),
                        (''Covid'', ''Cough''), (''Covid'', ''Loss Of Smell'')]\<rparr>"


section \<open>Repeated upserts\<close>


fun alternating :: "'a \<Rightarrow> 'a \<Rightarrow> nat \<Rightarrow> 'a list" where
  \<comment> \<open>The first \<open>n\<close> of \<open>a, b, a, b, ...\<close>\<close>
  "alternating a b 0 = []"
| "alternating a b (Suc n) = a # alternating b a n"



definition obs :: "string \<Rightarrow> store \<Rightarrow> int \<times> nat \<times> nat" where
  \<comment> \<open>What a diagnosis leaves in the registry and the audit log: the hit count of a key,
      the number of logged upserts and the number of \<open>UNUSUAL_CASE\<close> events.\<close>
  "obs key st =
     (hits_of st key, count_action ''UPSERT_SPECIAL_CASE_WITH_PATIENT'' st,
      count_action ''UNUSUAL_CASE'' st)"

chapter \<open>Verified properties\<close>

section \<open>Normalisation and the canonical key\<close>


lemma of_char_lt: "(of_char c :: nat) < 256" by simp

lemma is_space_to_lower [simp]: "is_space (to_lower c) = is_space c"
  by (auto simp: is_space_def to_lower_def is_upper_def)

lemma is_space_to_upper [simp]: "is_space (to_upper c) = is_space c"
  by (auto simp: is_space_def to_upper_def is_lower_def)

lemma to_lower_idem [simp]: "to_lower (to_lower c) = to_lower c"
  by (auto simp: to_lower_def is_upper_def)

lemma to_upper_idem [simp]: "to_upper (to_upper c) = to_upper c"
  by (auto simp: to_upper_def is_lower_def)

lemma to_upper_lower [simp]: "to_upper (to_lower c) = to_upper c"
  using of_char_lt [of c]
  by (auto simp: to_upper_def to_lower_def is_lower_def is_upper_def)

lemma to_lower_upper [simp]: "to_lower (to_upper c) = to_lower c"
  using of_char_lt [of c]
  by (auto simp: to_upper_def to_lower_def is_lower_def is_upper_def)

lemma is_cased_to_lower [simp]: "is_cased (to_lower c) = is_cased c"
  by (auto simp: is_cased_def to_lower_def is_lower_def is_upper_def)

lemma is_cased_to_upper [simp]: "is_cased (to_upper c) = is_cased c"
  by (auto simp: is_cased_def to_upper_def is_lower_def is_upper_def)


lemma title_from_lower [simp]: "title_from b (map to_lower s) = title_from b s"
  by (induction s arbitrary: b) simp_all

lemma title_from_idem [simp]: "title_from b (title_from b s) = title_from b s"
  by (induction s arbitrary: b) simp_all

lemma title_from_eq_Nil [simp]: "title_from b s = [] \<longleftrightarrow> s = []"
  by (cases s) simp_all

lemma is_space_hd_title: "s \<noteq> [] \<Longrightarrow> is_space (hd (title_from b s)) = is_space (hd s)"
  by (cases s) simp_all

lemma is_space_last_title: "s \<noteq> [] \<Longrightarrow> is_space (last (title_from b s)) = is_space (last s)"
  by (induction s arbitrary: b) simp_all



lemma py_strip_trimmed_id: "trimmed s \<Longrightarrow> py_strip s = s"
proof (cases "s = []")
  case True
  then show ?thesis by (simp add: py_strip_def)
next
  case False
  assume "trimmed s"
  with False have h: "\<not> is_space (hd s)" and l: "\<not> is_space (last s)"
    by (simp_all add: trimmed_def)
  from h have a: "dropWhile is_space s = s" by (simp add: dropWhile_eq_self_iff)
  from l False have b: "dropWhile is_space (rev s) = rev s"
    by (simp add: dropWhile_eq_self_iff hd_rev)
  show ?thesis by (simp add: py_strip_def a b)
qed

lemma trimmed_py_strip: "trimmed (py_strip s)"
proof -
  define u where "u = dropWhile is_space s"
  define v where "v = dropWhile is_space (rev u)"
  have s: "py_strip s = rev v" by (simp add: py_strip_def u_def v_def)
  show ?thesis
  proof (cases "v = []")
    case True
    then show ?thesis by (simp add: s trimmed_def)
  next
    case False
    then have hv: "\<not> is_space (hd v)" unfolding v_def by (rule hd_dropWhile)
    from False have un: "u \<noteq> []" by (auto simp: v_def)
    then have hu: "\<not> is_space (hd u)" unfolding u_def by (rule hd_dropWhile)
    have "rev u = takeWhile is_space (rev u) @ v" by (simp add: v_def)
    then have "last (rev u) = last v" using False by (metis last_appendR)
    then have "last v = hd u" using un by (simp add: last_rev)
    with hu hv False show ?thesis by (simp add: s trimmed_def hd_rev last_rev)
  qed
qed

lemma trimmed_title: "trimmed s \<Longrightarrow> trimmed (title_from b s)"
  by (auto simp: trimmed_def is_space_hd_title is_space_last_title)

lemma py_strip_idem [simp]: "py_strip (py_strip s) = py_strip s"
  by (simp add: py_strip_trimmed_id trimmed_py_strip)

lemma py_strip_title_strip [simp]: "py_strip (py_title (py_strip s)) = py_title (py_strip s)"
  by (simp add: py_strip_trimmed_id trimmed_title trimmed_py_strip py_title_def)

lemma py_title_idem [simp]: "py_title (py_title s) = py_title s"
  by (simp add: py_title_def)

lemma py_title_eq_Nil [simp]: "py_title s = [] \<longleftrightarrow> s = []"
  by (simp add: py_title_def)








section \<open>Audit logging when the store is down\<close>

lemma store_down_recursion:
  assumes "\<forall>n. store_fails e n"
  shows "(\<forall>q st. fst (run e d q st) = Inl RecursionError)
       \<and> (\<forall>a dt st. fst (log_audit e d a dt st) = Inl RecursionError)"
proof (induction d)
  case 0
  show ?case by simp
next
  case (Suc d)
  have r: "fst (run e (Suc d) q st) = Inl RecursionError" for q st
    using assms Suc by simp
  have l: "fst (log_audit e (Suc d) a dt st) = Inl RecursionError" for a dt st
  proof (cases "run e d (CreateAudit a dt) st")
    case (Pair r st')
    with Suc have "r = Inl RecursionError" by (metis fst_conv)
    with Pair Suc show ?thesis by simp
  qed
  from r l show ?case by blast
qed

lemma on_error_store_down:
  assumes "\<forall>n. store_fails e n"
  shows "fst (on_error e name dt dflt st) = Inl RecursionError"
proof (cases "log_audit e (stack_limit e) name dt st")
  case (Pair r st')
  with store_down_recursion [OF assms, of "stack_limit e"] have "r = Inl RecursionError"
    by (metis fst_conv)
  with Pair show ?thesis by (simp add: on_error_def)
qed

text \<open>
  Claim C9. The claim is that \<open>log_audit\<close> returns without raising whenever the audit
  sink fails. The code does not do so when the store is down: every \<open>session.run\<close>
  raises, \<open>_run\<close> reports it through \<open>log_audit\<close>, which writes through \<open>_run\<close>, and
  the two recurse until the stack is used up. For every stack depth \<open>log_audit\<close> ends in
  \<open>RecursionError\<close>, and an operation whose handler calls it, such as
  \<open>diseases_by_symptoms\<close>, raises instead of returning its empty result.
\<close>

theorem log_audit_store_down:
  assumes "\<forall>n. store_fails e n"
  shows "fst (log_audit e d a dt st) = Inl RecursionError
       \<and> (normalise symptoms \<noteq> [] \<longrightarrow>
            fst (diseases_by_symptoms e symptoms min_matches st) = Inl RecursionError)"
  using store_down_recursion [OF assms, of d]
  by (simp add: diseases_by_symptoms_def Let_def assms on_error_store_down [OF assms])

lemma store_down_fails: "\<forall>n. store_fails store_down n"
  by (simp add: store_down_def example_env_def)

theorem log_audit_store_down_witness:
  "(\<forall>n. store_fails store_down n)
   \<and> normalise [''fever''] \<noteq> []
   \<and> fst (log_audit store_down 1000 ''UNUSUAL_CASE''
            [(''person'', Str ''Ann''), (''symptoms'', Strs [''Fever''])] empty_store)
       = Inl RecursionError
   \<and> fst (diseases_by_symptoms store_down [''fever''] None empty_store) = Inl RecursionError"
proof -
  have n: "normalise [''fever''] \<noteq> []" by code_simp
  note t = log_audit_store_down [OF store_down_fails, of 1000 "''UNUSUAL_CASE''"
      "[(''person'', Str ''Ann''), (''symptoms'', Strs [''Fever''])]" empty_store "[''fever'']" None]
  show ?thesis
    using store_down_fails n t by blast
qed

section \<open>The conditional probability tables\<close>

lemma bits_div_mod: "bits k i = map (\<lambda>j. (i div 2 ^ j) mod 2) (rev [0..<k])"
  by (simp add: bits_def and_one_eq drop_bit_eq_div)


lemma bits_nth: "j < k \<Longrightarrow> bits k i ! j = (i div 2 ^ (k - 1 - j)) mod 2"
  by (simp add: bits_div_mod rev_nth)





















section \<open>Matching diseases against symptoms\<close>

lemma set_found: "set (found edges sympts d) = {s. (d, s) \<in> set edges} \<inter> set sympts"
  by (auto simp: found_def image_iff)

lemma length_found: "length (found edges sympts d) = card ({s. (d, s) \<in> set edges} \<inter> set sympts)"
proof -
  have "distinct (found edges sympts d)" by (simp add: found_def)
  then have "length (found edges sympts d) = card (set (found edges sympts d))"
    by (simp add: distinct_card)
  then show ?thesis by (simp only: set_found)
qed

lemma distinct_match_query: "distinct (match_query edges sympts needed)"
  by (simp add: match_query_def)

lemma match_query_iff:
  "d \<in> set (match_query edges sympts needed) \<longleftrightarrow>
     {s. (d, s) \<in> set edges} \<inter> set sympts \<noteq> {}
     \<and> needed \<le> int (card ({s. (d, s) \<in> set edges} \<inter> set sympts))"
  by (auto simp: match_query_def length_found image_iff)

lemma match_query_iff_pos:
  assumes "1 \<le> needed"
  shows "d \<in> set (match_query edges sympts needed) \<longleftrightarrow>
     needed \<le> int (card ({s. (d, s) \<in> set edges} \<inter> set sympts))"
proof -
  have "{s. (d, s) \<in> set edges} \<inter> set sympts \<noteq> {}"
    if "needed \<le> int (card ({s. (d, s) \<in> set edges} \<inter> set sympts))"
  proof
    assume "{s. (d, s) \<in> set edges} \<inter> set sympts = {}"
    with that assms show False by simp
  qed
  then show ?thesis by (auto simp: match_query_iff)
qed

lemma diseases_by_symptoms_ok:
  assumes "\<not> store_fails e (calls st)"
  shows "diseases_by_symptoms e symptoms min_matches st =
     (if normalise symptoms = [] then (Inr [], st)
      else (Inr (match_query (has_symptom st) (normalise symptoms)
                  (case min_matches of None \<Rightarrow> int (length (normalise symptoms)) | Some m \<Rightarrow> max 1 m)),
            tick st))"
  using assms by (simp add: diseases_by_symptoms_def Let_def)

lemma diseases_by_symptoms_at_least:
  assumes "\<not> store_fails e (calls st)" and "1 \<le> m"
  shows "\<exists>ds. fst (diseases_by_symptoms e symptoms (Some m) st) = Inr ds \<and> distinct ds
     \<and> set ds = {d. m \<le> int (card (symptoms_of st d \<inter> set (normalise symptoms)))}"
proof (cases "normalise symptoms = []")
  case True
  with assms show ?thesis by (simp add: diseases_by_symptoms_ok)
next
  case False
  from assms(2) have m: "max 1 m = m" by simp
  have "set (match_query (has_symptom st) (normalise symptoms) m)
      = {d. m \<le> int (card (symptoms_of st d \<inter> set (normalise symptoms)))}"
    using match_query_iff_pos [OF assms(2)] by (auto simp: symptoms_of_def)
  with False assms(1) show ?thesis
    by (simp add: diseases_by_symptoms_ok m distinct_match_query)
qed

lemma subset_iff_card_inter:
  assumes "finite S"
  shows "card S \<le> card (D \<inter> S) \<longleftrightarrow> S \<subseteq> D"
proof
  assume c: "card S \<le> card (D \<inter> S)"
  have "D \<inter> S \<subseteq> S" by simp
  with assms c have "D \<inter> S = S" by (simp add: card_seteq)
  then show "S \<subseteq> D" by auto
next
  assume "S \<subseteq> D"
  then have "D \<inter> S = S" by auto
  then show "card S \<le> card (D \<inter> S)" by simp
qed

text \<open>
  Claim C3, as the code has it. With no \<open>min_matches\<close> a disease is returned exactly
  when every input symptom is one of its symptoms (the input is a subset of the disease's
  set, not the other way round), for an input that is not empty and names no symptom
  twice; with \<open>min_matches = 1\<close> a disease is returned exactly when it shares a symptom
  with the input. Both for a query that the store answers.
\<close>

theorem match_all_and_any:
  assumes "\<not> store_fails e (calls st)"
  shows "(normalise symptoms \<noteq> [] \<and> distinct (normalise symptoms) \<longrightarrow>
           (\<exists>ds. fst (diseases_by_symptoms e symptoms None st) = Inr ds
              \<and> (\<forall>d. d \<in> set ds \<longleftrightarrow> set (normalise symptoms) \<subseteq> symptoms_of st d)))
       \<and> (\<exists>ds. fst (diseases_by_symptoms e symptoms (Some 1) st) = Inr ds
              \<and> (\<forall>d. d \<in> set ds \<longleftrightarrow> symptoms_of st d \<inter> set (normalise symptoms) \<noteq> {}))"
proof (intro conjI impI)
  assume a: "normalise symptoms \<noteq> [] \<and> distinct (normalise symptoms)"
  let ?S = "normalise symptoms"
  from a have len: "length ?S = card (set ?S)" by (simp add: distinct_card)
  from a have pos: "1 \<le> int (length ?S)" by (cases ?S) simp_all
  have "d \<in> set (match_query (has_symptom st) ?S (int (length ?S))) \<longleftrightarrow> set ?S \<subseteq> symptoms_of st d"
    for d
    using match_query_iff_pos [OF pos, of d "has_symptom st" ?S]
      subset_iff_card_inter [of "set ?S" "symptoms_of st d"]
    by (simp add: symptoms_of_def len)
  with a assms
  show "\<exists>ds. fst (diseases_by_symptoms e symptoms None st) = Inr ds
      \<and> (\<forall>d. d \<in> set ds \<longleftrightarrow> set (normalise symptoms) \<subseteq> symptoms_of st d)"
    by (simp add: diseases_by_symptoms_ok)
next
  obtain ds where ds: "fst (diseases_by_symptoms e symptoms (Some 1) st) = Inr ds"
    and s: "set ds = {d. 1 \<le> int (card (symptoms_of st d \<inter> set (normalise symptoms)))}"
    using diseases_by_symptoms_at_least [OF assms, of 1 symptoms] by auto
  have "1 \<le> int (card (symptoms_of st d \<inter> set (normalise symptoms)))
      \<longleftrightarrow> symptoms_of st d \<inter> set (normalise symptoms) \<noteq> {}" for d
  proof -
    have "finite (symptoms_of st d \<inter> set (normalise symptoms))" by simp
    then have "0 < card (symptoms_of st d \<inter> set (normalise symptoms))
        \<longleftrightarrow> symptoms_of st d \<inter> set (normalise symptoms) \<noteq> {}"
      by (simp add: card_gt_0_iff)
    then show ?thesis by linarith
  qed
  with ds s
  show "\<exists>ds. fst (diseases_by_symptoms e symptoms (Some 1) st) = Inr ds
      \<and> (\<forall>d. d \<in> set ds \<longleftrightarrow> symptoms_of st d \<inter> set (normalise symptoms) \<noteq> {})"
    by auto
qed

lemma store_up_ok: "\<not> store_fails store_up n"
  by (simp add: store_up_def example_env_def)

lemma normalise_fever_cough: "normalise [''fever'', '' Cough''] = [''Fever'', ''Cough'']"
  by code_simp

theorem match_all_and_any_witness:
  "\<not> store_fails store_up (calls flu_store)
   \<and> normalise [''fever'', '' Cough''] \<noteq> [] \<and> distinct (normalise [''fever'', '' Cough''])
   \<and> (\<exists>ds. fst (diseases_by_symptoms store_up [''fever'', '' Cough''] None flu_store) = Inr ds
          \<and> (\<forall>d. d \<in> set ds \<longleftrightarrow> set (normalise [''fever'', '' Cough'']) \<subseteq> symptoms_of flu_store d))
   \<and> (\<exists>ds. fst (diseases_by_symptoms store_up [''fever'', '' Cough''] (Some 1) flu_store) = Inr ds
          \<and> (\<forall>d. d \<in> set ds \<longleftrightarrow> symptoms_of flu_store d \<inter> set (normalise [''fever'', '' Cough'']) \<noteq> {}))
   \<and> fst (diseases_by_symptoms store_up [''fever'', '' Cough''] None flu_store) = Inr [''Flu'', ''Covid'']"
proof -
  have h: "\<not> store_fails store_up (calls flu_store)" by (rule store_up_ok)
  have n: "normalise [''fever'', '' Cough''] \<noteq> [] \<and> distinct (normalise [''fever'', '' Cough''])"
    by (simp add: normalise_fever_cough)
  note t = match_all_and_any [OF h, of "[''fever'', '' Cough'']"]
  have a: "\<exists>ds. fst (diseases_by_symptoms store_up [''fever'', '' Cough''] None flu_store) = Inr ds
          \<and> (\<forall>d. d \<in> set ds \<longleftrightarrow> set (normalise [''fever'', '' Cough'']) \<subseteq> symptoms_of flu_store d)"
    by (rule mp [OF t [THEN conjunct1] n])
  have v: "fst (diseases_by_symptoms store_up [''fever'', '' Cough''] None flu_store) = Inr [''Flu'', ''Covid'']"
    by code_simp
  show ?thesis
    by (intro conjI h n [THEN conjunct1] n [THEN conjunct2] a t [THEN conjunct2] v)
qed

text \<open>
  The claim as the specification words it, "a disease is returned iff its full symptom set
  is a subset of the input", fails: for the input Fever, Cough the search returns Covid,
  whose symptom Loss Of Smell is not in the input.
\<close>

theorem match_all_not_disease_subset:
  "fst (diseases_by_symptoms store_up [''Fever'', ''Cough''] None flu_store) = Inr [''Flu'', ''Covid'']
   \<and> \<not> symptoms_of flu_store ''Covid'' \<subseteq> set (normalise [''Fever'', ''Cough''])"
proof -
  have v: "fst (diseases_by_symptoms store_up [''Fever'', ''Cough''] None flu_store) = Inr [''Flu'', ''Covid'']"
    by code_simp
  have n: "normalise [''Fever'', ''Cough''] = [''Fever'', ''Cough'']" by code_simp
  have "''Loss Of Smell'' \<in> symptoms_of flu_store ''Covid''"
    by (simp add: symptoms_of_def flu_store_def empty_store_def)
  moreover have "''Loss Of Smell'' \<notin> set (normalise [''Fever'', ''Cough''])"
    by (simp add: n)
  ultimately have "\<not> symptoms_of flu_store ''Covid'' \<subseteq> set (normalise [''Fever'', ''Cough''])"
    by blast
  with v show ?thesis by (intro conjI)
qed

text \<open>
  Claim C2. For \<open>min_matches \<ge> 1\<close> the code returns the diseases sharing at least that many
  symptoms with the input (lemma \<open>diseases_by_symptoms_at_least\<close>). With no \<open>min_matches\<close>
  it compares the number of shared symptoms with the length of the input list, duplicates
  counted: for the input Fever, fever every input symptom is a symptom of Flu, and the
  code returns no disease.
\<close>

theorem match_all_duplicate_input:
  "normalise [''Fever'', ''fever''] = [''Fever'', ''Fever'']
   \<and> set (normalise [''Fever'', ''fever'']) \<subseteq> symptoms_of flu_store ''Flu''
   \<and> fst (diseases_by_symptoms store_up [''Fever'', ''fever''] None flu_store) = Inr []
   \<and> fst (diseases_by_symptoms store_up [''Fever''] None flu_store) = Inr [''Flu'', ''Covid'']"
proof -
  have n: "normalise [''Fever'', ''fever''] = [''Fever'', ''Fever'']" by code_simp
  have s: "set (normalise [''Fever'', ''fever'']) \<subseteq> symptoms_of flu_store ''Flu''"
    by (simp add: n symptoms_of_def flu_store_def empty_store_def)
  have v: "fst (diseases_by_symptoms store_up [''Fever'', ''fever''] None flu_store) = Inr []"
    by code_simp
  have w: "fst (diseases_by_symptoms store_up [''Fever''] None flu_store) = Inr [''Flu'', ''Covid'']"
    by code_simp
  show ?thesis by (intro conjI n s v w)
qed

section \<open>Upserting special cases\<close>


lemma log_audit_ok:
  assumes "store_ok e"
  shows "log_audit e (stack_limit e) a dt st = (Inr (), apply_write (CreateAudit a dt) (tick st))"
proof -
  from assms have "2 \<le> stack_limit e" by (simp add: store_ok_def)
  then obtain d where "stack_limit e = 2 + d" using le_Suc_ex by blast
  then have d: "stack_limit e = Suc (Suc d)" by simp
  from assms have "\<not> store_fails e (calls st)" by (simp add: store_ok_def)
  then show ?thesis by (simp add: d)
qed




lemma upsert_with_patient_ok:
  assumes "store_ok e"
  shows "upsert_special_case_with_patient e symptoms p st =
     (Inr (if normalise_set symptoms = [] then None
           else map_of (special_cases (upsert_patient_query (sym_key symptoms)
                  (normalise_set symptoms) (clock_ms e (calls st)) p (tick st))) (sym_key symptoms)),
      apply_write (CreateAudit ''UPSERT_SPECIAL_CASE_WITH_PATIENT''
          [(''key'', Str (sym_key symptoms)), (''symptoms'', Strs (normalise_set symptoms)),
           (''patient'', Str p)])
        (tick (upsert_patient_query (sym_key symptoms) (normalise_set symptoms)
                 (clock_ms e (calls st)) p (tick st))))"
proof -
  from assms have "\<not> store_fails e (calls st)" by (simp add: store_ok_def)
  then show ?thesis
    by (simp add: upsert_special_case_with_patient_def Let_def log_audit_ok [OF assms])
qed

lemma special_cases_tick [simp]: "special_cases (tick st) = special_cases st"
  by (simp add: tick_def)

lemma calls_tick [simp]: "calls (tick st) = Suc (calls st)"
  by (simp add: tick_def)

lemma special_cases_audit [simp]: "special_cases (apply_write (CreateAudit a dt) st) = special_cases st"
  by simp


lemma calls_upsert_patient_query [simp]:
  "calls (upsert_patient_query key sympts ts p st) = calls st"
  by (simp add: upsert_patient_query_def)


lemma upsert_with_patient_calls:
  assumes "store_ok e"
  shows "calls (snd (upsert_special_case_with_patient e symptoms p st)) = calls st + 2"
  by (simp add: upsert_with_patient_ok [OF assms])



lemma length_alternating [simp]: "length (alternating a b n) = n"
  by (induction n arbitrary: a b) simp_all

lemma set_alternating: "2 \<le> n \<Longrightarrow> set (alternating a b n) = {a, b}"
proof (induction n arbitrary: a b)
  case 0
  then show ?case by simp
next
  case (Suc n)
  show ?case
  proof (cases "n = 1")
    case True
    then show ?thesis by auto
  next
    case False
    with Suc.prems have "2 \<le> n" by simp
    from Suc.IH [OF this, of b a] show ?thesis by auto
  qed
qed





section \<open>Similar special cases\<close>













section \<open>The unusual-case policy of diagnose_patient\<close>


lemma tick_calls: "tick st = st\<lparr>calls := Suc (calls st)\<rparr>"
  by (simp add: tick_def)

lemma obs_calls [simp]: "obs key (st\<lparr>calls := n\<rparr>) = obs key st"
  by (simp add: obs_def hits_of_def count_action_def)

lemma obs_tick [simp]: "obs key (tick st) = obs key st"
  by (simp add: tick_def)












declare apply_write.simps [simp del]






















end
